theory Spec2Isabelle
  imports Main "HOL-Library.Word" "HOL-Library.Multiset"
begin

section \<open>Values\<close>

text \<open>
  A JavaScript string is a sequence of UTF-16 code units. String literals of the program
  are ASCII and are written through \<open>lit\<close>.
\<close>

type_synonym jsstring = "16 word list"

definition lit :: "string \<Rightarrow> jsstring" where
  "lit s = map of_char s"

text \<open>
  The fields of a JSON request body that the handlers of \<^verbatim>\<open>server.js\<close> read. The model
  covers a field that is absent (\<open>JUndefined\<close>), \<^verbatim>\<open>null\<close> or a string; numbers, booleans
  and nested objects are outside the model.
\<close>

datatype jsval = JUndefined | JNull | JStr jsstring

text \<open>\<^verbatim>\<open>!x\<close> on such a value: true for \<^verbatim>\<open>undefined\<close>, \<^verbatim>\<open>null\<close> and the empty string.\<close>

fun falsy :: "jsval \<Rightarrow> bool" where
  "falsy JUndefined = True"
| "falsy JNull = True"
| "falsy (JStr s) = (s = [])"

text \<open>\<^verbatim>\<open>const { a, b } = req.body\<close>: the body maps a field name to its value.\<close>

type_synonym body = "string \<Rightarrow> jsval"

text \<open>A value stored in a column of the SQLite tables, and the binding of a parameter.\<close>

datatype sqlval = SqlNull | SqlText jsstring

fun bind_param :: "jsval \<Rightarrow> sqlval" where
  "bind_param JUndefined = SqlNull"
| "bind_param JNull = SqlNull"
| "bind_param (JStr s) = SqlText s"

text \<open>\<^verbatim>\<open>x || null\<close>\<close>

definition or_null :: "jsval \<Rightarrow> jsval" where
  "or_null x = (if falsy x then JNull else x)"

section \<open>The store\<close>

text \<open>
  \<^verbatim>\<open>
  CREATE TABLE users (id INTEGER PRIMARY KEY AUTOINCREMENT, fullName TEXT NOT NULL,
                      email TEXT UNIQUE NOT NULL, password TEXT NOT NULL)
  CREATE TABLE posts (id INTEGER PRIMARY KEY AUTOINCREMENT, title TEXT NOT NULL,
                      content TEXT NOT NULL, author TEXT NOT NULL, username TEXT,
                      imageUrl TEXT, category TEXT DEFAULT 'uncategorized',
                      status TEXT DEFAULT 'pending',
                      createdAt DATETIME DEFAULT CURRENT_TIMESTAMP)
  \<close>
  A table is the list of its rows in insertion order. \<open>createdAt\<close> is the reading of
  \<^verbatim>\<open>CURRENT_TIMESTAMP\<close> in seconds (its text form orders as the seconds do). The
  \<open>seq\<close> fields are the largest id handed out so far (\<^verbatim>\<open>AUTOINCREMENT\<close>).
  A statement fails only by a constraint of the schema; a failure of the database itself
  (the \<^verbatim>\<open>err\<close> of a query that violates no constraint) is outside the model.
\<close>

record user_row =
  u_id :: nat
  u_fullName :: sqlval
  u_email :: sqlval
  u_password :: sqlval

record post_row =
  p_id :: nat
  p_title :: sqlval
  p_content :: sqlval
  p_author :: sqlval
  p_username :: sqlval
  p_imageUrl :: sqlval
  p_category :: sqlval
  p_status :: sqlval
  p_createdAt :: nat

record db =
  users :: "user_row list"
  user_seq :: nat
  posts :: "post_row list"
  post_seq :: nat

definition empty_db :: db where
  "empty_db = \<lparr>users = [], user_seq = 0, posts = [], post_seq = 0\<rparr>"

datatype sqlite_error = UNIQUE_constraint_failed | NOT_NULL_constraint_failed

text \<open>\<^verbatim>\<open>err.message.includes('UNIQUE')\<close>\<close>

fun message_includes_UNIQUE :: "sqlite_error \<Rightarrow> bool" where
  "message_includes_UNIQUE UNIQUE_constraint_failed = True"
| "message_includes_UNIQUE NOT_NULL_constraint_failed = False"

text \<open>\<^verbatim>\<open>INSERT INTO users (fullName, email, password) VALUES (?, ?, ?)\<close>\<close>

definition insert_user :: "sqlval \<Rightarrow> sqlval \<Rightarrow> sqlval \<Rightarrow> db \<Rightarrow> sqlite_error + db" where
  "insert_user fullName email password d =
     (if fullName = SqlNull \<or> email = SqlNull \<or> password = SqlNull
        then Inl NOT_NULL_constraint_failed
      else if email \<in> set (map u_email (users d)) then Inl UNIQUE_constraint_failed
      else Inr (d\<lparr>users := users d @
                    [\<lparr>u_id = user_seq d + 1, u_fullName = fullName, u_email = email,
                      u_password = password\<rparr>],
                  user_seq := user_seq d + 1\<rparr>))"

text \<open>
  \<^verbatim>\<open>INSERT INTO posts (title, content, author, username, imageUrl, category, status)
  VALUES (?, ?, ?, ?, ?, ?, 'pending')\<close>; \<open>ts\<close> is \<^verbatim>\<open>CURRENT_TIMESTAMP\<close>.
\<close>

definition insert_post ::
  "sqlval \<Rightarrow> sqlval \<Rightarrow> sqlval \<Rightarrow> sqlval \<Rightarrow> sqlval \<Rightarrow> sqlval \<Rightarrow> nat \<Rightarrow> db \<Rightarrow> sqlite_error + db" where
  "insert_post title content author username imageUrl category ts d =
     (if title = SqlNull \<or> content = SqlNull \<or> author = SqlNull
        then Inl NOT_NULL_constraint_failed
      else Inr (d\<lparr>posts := posts d @
                    [\<lparr>p_id = post_seq d + 1, p_title = title, p_content = content,
                      p_author = author, p_username = username, p_imageUrl = imageUrl,
                      p_category = category, p_status = SqlText (lit ''pending''),
                      p_createdAt = ts\<rparr>],
                  post_seq := post_seq d + 1\<rparr>))"

text \<open>\<^verbatim>\<open>ORDER BY createdAt DESC\<close>, rows of equal \<open>createdAt\<close> kept in table order.\<close>

definition order_by_createdAt_desc :: "post_row list \<Rightarrow> post_row list" where
  "order_by_createdAt_desc rows = sort_key (\<lambda>r. - int (p_createdAt r)) rows"

text \<open>\<^verbatim>\<open>UPDATE posts SET status = ? WHERE id = ?\<close>, with \<^verbatim>\<open>this.changes\<close>.\<close>

definition update_status :: "jsstring \<Rightarrow> nat \<Rightarrow> db \<Rightarrow> nat \<times> db" where
  "update_status s i d =
     (length (filter (\<lambda>r. p_id r = i) (posts d)),
      d\<lparr>posts := map (\<lambda>r. if p_id r = i then r\<lparr>p_status := SqlText s\<rparr> else r) (posts d)\<rparr>)"

text \<open>\<^verbatim>\<open>DELETE FROM posts WHERE id = ?\<close>, with \<^verbatim>\<open>this.changes\<close>.\<close>

definition delete_row :: "nat \<Rightarrow> db \<Rightarrow> nat \<times> db" where
  "delete_row i d =
     (length (filter (\<lambda>r. p_id r = i) (posts d)),
      d\<lparr>posts := filter (\<lambda>r. p_id r \<noteq> i) (posts d)\<rparr>)"

section \<open>Collaborators and responses\<close>

record s3_params =
  Bucket :: jsstring
  Key :: jsstring
  Expires :: nat
  ContentType :: jsval

text \<open>
  The libraries the handlers call: \<^verbatim>\<open>bcrypt.hash(password, rounds)\<close> (\<open>None\<close> when it
  throws), \<^verbatim>\<open>bcrypt.compare(password, stored)\<close>, \<^verbatim>\<open>s3.getSignedUrl('putObject', params)\<close>
  (\<open>Inl\<close> the \<^verbatim>\<open>err.message\<close>, \<open>Inr\<close> the URL), and the two configuration values.
\<close>

record collab =
  bcrypt_hash :: "jsval \<Rightarrow> nat \<Rightarrow> jsstring option"
  bcrypt_compare :: "jsval \<Rightarrow> sqlval \<Rightarrow> bool"
  getSignedUrl :: "s3_params \<Rightarrow> jsval + jsstring"
  S3_BUCKET_NAME :: jsstring
  AWS_REGION :: jsstring

datatype payload =
    Msg jsstring
  | MsgUser jsstring nat sqlval sqlval
  | PostRows "post_row list"
  | PostRow post_row
  | UploadUrls jsstring jsstring

text \<open>\<^verbatim>\<open>res.status(code).json(payload)\<close>\<close>

type_synonym response = "nat \<times> payload"

section \<open>Handlers\<close>

text \<open>\<^verbatim>\<open>POST /api/signup\<close>\<close>

definition signup :: "collab \<Rightarrow> body \<Rightarrow> db \<Rightarrow> response \<times> db" where
  "signup c b d =
     (let fullName = b ''fullName''; email = b ''email''; password = b ''password'' in
      if falsy fullName \<or> falsy email \<or> falsy password
        then ((400, Msg (lit ''All fields required.'')), d)
      else case bcrypt_hash c password 10 of
        None \<Rightarrow> ((500, Msg (lit ''Hashing error.'')), d)
      | Some hashedPassword \<Rightarrow>
          (case insert_user (bind_param fullName) (bind_param email) (SqlText hashedPassword) d of
             Inl err \<Rightarrow>
               if message_includes_UNIQUE err
                 then ((409, Msg (lit ''Email already exists.'')), d)
               else ((500, Msg (lit ''Error creating user.'')), d)
           | Inr d' \<Rightarrow> ((201, Msg (lit ''User registered successfully!'')), d')))"

text \<open>\<^verbatim>\<open>POST /api/login\<close>; \<^verbatim>\<open>db.get\<close> yields the first matching row, if any.\<close>

definition login :: "collab \<Rightarrow> body \<Rightarrow> db \<Rightarrow> response" where
  "login c b d =
     (let email = b ''email''; password = b ''password'' in
      if falsy email \<or> falsy password
        then (400, Msg (lit ''Email and password required.''))
      else case find (\<lambda>u. u_email u = bind_param email) (users d) of
        None \<Rightarrow> (401, Msg (lit ''Invalid credentials.''))
      | Some user \<Rightarrow>
          if bcrypt_compare c password (u_password user)
            then (200, MsgUser (lit ''Login successful!'') (u_id user) (u_fullName user)
                         (u_email user))
          else (401, Msg (lit ''Invalid credentials.'')))"

text \<open>\<^verbatim>\<open>POST /api/posts\<close>\<close>

definition create_post :: "body \<Rightarrow> nat \<Rightarrow> db \<Rightarrow> response \<times> db" where
  "create_post b ts d =
     (let title = b ''title''; content = b ''content''; author = b ''author'';
          username = b ''username''; imageUrl = b ''imageUrl''; category = b ''category'' in
      if falsy title \<or> falsy content \<or> falsy author \<or> falsy username \<or> falsy category
        then ((400, Msg (lit ''Missing fields.'')), d)
      else case insert_post (bind_param title) (bind_param content) (bind_param author)
                  (bind_param username) (bind_param (or_null imageUrl)) (bind_param category)
                  ts d of
        Inl err \<Rightarrow> ((500, Msg (lit ''Error creating post.'')), d)
      | Inr d' \<Rightarrow> ((201, Msg (lit ''Post created successfully.'')), d'))"

text \<open>\<^verbatim>\<open>GET /api/posts\<close>, \<^verbatim>\<open>GET /api/posts/approved\<close>, \<^verbatim>\<open>GET /api/posts/pending\<close>\<close>

definition get_posts :: "db \<Rightarrow> response" where
  "get_posts d = (200, PostRows (order_by_createdAt_desc (posts d)))"

definition get_approved :: "db \<Rightarrow> response" where
  "get_approved d =
     (200, PostRows (order_by_createdAt_desc
        (filter (\<lambda>r. p_status r = SqlText (lit ''approved'')) (posts d))))"

definition get_pending :: "db \<Rightarrow> response" where
  "get_pending d =
     (200, PostRows (order_by_createdAt_desc
        (filter (\<lambda>r. p_status r = SqlText (lit ''pending'')) (posts d))))"

text \<open>
  \<^verbatim>\<open>PUT /api/posts/:id/approve\<close>, \<^verbatim>\<open>PUT /api/posts/:id/reject\<close>,
  \<^verbatim>\<open>DELETE /api/posts/:id\<close>, \<^verbatim>\<open>GET /api/posts/:id\<close>. The parameter is the number
  that the path segment denotes to SQLite's comparison with the integer column.
\<close>

definition approve :: "nat \<Rightarrow> db \<Rightarrow> response \<times> db" where
  "approve i d =
     (case update_status (lit ''approved'') i d of
        (changes, d') \<Rightarrow>
          if changes = 0 then ((404, Msg (lit ''Post not found.'')), d')
          else ((200, Msg (lit ''Post approved.'')), d'))"

definition reject :: "nat \<Rightarrow> db \<Rightarrow> response \<times> db" where
  "reject i d =
     (case update_status (lit ''rejected'') i d of
        (changes, d') \<Rightarrow>
          if changes = 0 then ((404, Msg (lit ''Post not found.'')), d')
          else ((200, Msg (lit ''Post rejected.'')), d'))"

definition delete_post :: "nat \<Rightarrow> db \<Rightarrow> response \<times> db" where
  "delete_post i d =
     (case delete_row i d of
        (changes, d') \<Rightarrow>
          if changes = 0 then ((404, Msg (lit ''Post not found.'')), d')
          else ((200, Msg (lit ''Post deleted.'')), d'))"

definition get_post :: "nat \<Rightarrow> db \<Rightarrow> response" where
  "get_post i d =
     (case find (\<lambda>r. p_id r = i) (posts d) of
        None \<Rightarrow> (404, Msg (lit ''Post not found.''))
      | Some row \<Rightarrow> (200, PostRow row))"

subsection \<open>The upload key\<close>

text \<open>\<^verbatim>\<open>\s\<close> of a regular expression without the \<^verbatim>\<open>u\<close> flag, on one code unit.\<close>

definition is_space :: "16 word \<Rightarrow> bool" where
  "is_space c \<longleftrightarrow>
     c = 0x09 \<or> c = 0x0A \<or> c = 0x0B \<or> c = 0x0C \<or> c = 0x0D \<or> c = 0x20 \<or> c = 0xA0 \<or>
     c = 0x1680 \<or> (0x2000 \<le> c \<and> c \<le> 0x200A) \<or> c = 0x2028 \<or> c = 0x2029 \<or>
     c = 0x202F \<or> c = 0x205F \<or> c = 0x3000 \<or> c = 0xFEFF"

text \<open>The class \<^verbatim>\<open>[a-zA-Z0-9._-]\<close>.\<close>

definition is_key_char :: "16 word \<Rightarrow> bool" where
  "is_key_char c \<longleftrightarrow>
     (of_char CHR ''a'' \<le> c \<and> c \<le> of_char CHR ''z'') \<or>
     (of_char CHR ''A'' \<le> c \<and> c \<le> of_char CHR ''Z'') \<or>
     (of_char CHR ''0'' \<le> c \<and> c \<le> of_char CHR ''9'') \<or>
     c = of_char CHR ''.'' \<or> c = of_char CHR ''_'' \<or> c = of_char CHR ''-''"

text \<open>
  \<^verbatim>\<open>.replace(/\s+/g, '_')\<close>: scanning from the left, the longest match of \<^verbatim>\<open>\s+\<close> at
  the current position is replaced and the scan goes on after it.
\<close>

function replace_spaces :: "jsstring \<Rightarrow> jsstring" where
  "replace_spaces [] = []"
| "replace_spaces (c # cs) =
     (if is_space c then of_char CHR ''_'' # replace_spaces (dropWhile is_space cs)
      else c # replace_spaces cs)"
  by pat_completeness auto
termination
  by (relation "measure length") (auto simp: length_dropWhile_le less_Suc_eq_le)

text \<open>\<^verbatim>\<open>.replace(/[^a-zA-Z0-9._-]/g, '')\<close>\<close>

definition remove_others :: "jsstring \<Rightarrow> jsstring" where
  "remove_others s = filter is_key_char s"

definition sanitize :: "jsstring \<Rightarrow> jsstring" where
  "sanitize fileName = remove_others (replace_spaces fileName)"

text \<open>The decimal digits of a number, as a template literal renders \<^verbatim>\<open>Date.now()\<close>.\<close>

fun decimal :: "nat \<Rightarrow> jsstring" where
  "decimal n = (if n < 10 then [of_nat (48 + n)] else decimal (n div 10) @ [of_nat (48 + n mod 10)])"

declare decimal.simps [simp del]

text \<open>\<^verbatim>\<open>err.message || 'Unknown S3 error'\<close>, rendered in the template literal.\<close>

fun message_or_unknown :: "jsval \<Rightarrow> jsstring" where
  "message_or_unknown (JStr m) = (if m = [] then lit ''Unknown S3 error'' else m)"
| "message_or_unknown _ = lit ''Unknown S3 error''"

text \<open>
  \<^verbatim>\<open>POST /api/s3-presigned-url\<close>; \<open>now\<close> is \<^verbatim>\<open>Date.now()\<close>. A truthy \<open>fileName\<close>
  without a \<^verbatim>\<open>replace\<close> method throws, which Express answers with 500.
\<close>

definition s3_presigned_url :: "collab \<Rightarrow> body \<Rightarrow> nat \<Rightarrow> response" where
  "s3_presigned_url c b now =
     (let fileName = b ''fileName''; fileType = b ''fileType'' in
      if falsy fileName \<or> falsy fileType then (400, Msg (lit ''Missing file info.''))
      else case fileName of
        JStr name \<Rightarrow>
          (let s3Key = lit ''posts/'' @ decimal now @ lit ''-'' @ sanitize name;
               params = \<lparr>Bucket = S3_BUCKET_NAME c, Key = s3Key, Expires = 300,
                         ContentType = fileType\<rparr>
           in case getSignedUrl c params of
                Inl message \<Rightarrow>
                  (500, Msg (lit ''S3 URL generation failed. Details: '' @
                             message_or_unknown message))
              | Inr uploadUrl \<Rightarrow>
                  (200, UploadUrls uploadUrl
                     (lit ''https://'' @ S3_BUCKET_NAME c @ lit ''.s3.'' @ AWS_REGION c @
                      lit ''.amazonaws.com/'' @ s3Key)))
      | _ \<Rightarrow> (500, Msg (lit ''TypeError: fileName.replace is not a function'')))"

section \<open>Sequences of requests\<close>

datatype request =
    Signup body
  | Login body
  | CreatePost body nat
  | GetPosts
  | GetApproved
  | GetPending
  | Approve nat
  | Reject nat
  | Delete nat
  | GetPost nat
  | S3PresignedUrl body nat

fun handle :: "collab \<Rightarrow> request \<Rightarrow> db \<Rightarrow> response \<times> db" where
  "handle c (Signup b) d = signup c b d"
| "handle c (Login b) d = (login c b d, d)"
| "handle c (CreatePost b ts) d = create_post b ts d"
| "handle c GetPosts d = (get_posts d, d)"
| "handle c GetApproved d = (get_approved d, d)"
| "handle c GetPending d = (get_pending d, d)"
| "handle c (Approve i) d = approve i d"
| "handle c (Reject i) d = reject i d"
| "handle c (Delete i) d = delete_post i d"
| "handle c (GetPost i) d = (get_post i d, d)"
| "handle c (S3PresignedUrl b now) d = (s3_presigned_url c b now, d)"

text \<open>The store after a sequence of requests, served one after the other.\<close>

fun serve :: "collab \<Rightarrow> request list \<Rightarrow> db \<Rightarrow> db" where
  "serve c [] d = d"
| "serve c (q # qs) d = serve c qs (snd (handle c q d))"

section \<open>Predicates of the specification\<close>

text \<open>The three moderation statuses.\<close>

definition pending :: sqlval where "pending = SqlText (lit ''pending'')"
definition approved :: sqlval where "approved = SqlText (lit ''approved'')"
definition rejected :: sqlval where "rejected = SqlText (lit ''rejected'')"

definition is_status :: "sqlval \<Rightarrow> bool" where
  "is_status s \<longleftrightarrow> s = pending \<or> s = approved \<or> s = rejected"

text \<open>
  The transitions that the data model of the specification allows: from pending to
  approved, from pending to rejected, and the overwrite of a status by itself.
\<close>

definition spec_transition_allowed :: "sqlval \<Rightarrow> sqlval \<Rightarrow> bool" where
  "spec_transition_allowed old new \<longleftrightarrow>
     new = old \<or> (old = pending \<and> (new = approved \<or> new = rejected))"

text \<open>The status of the post with a given id, if there is one.\<close>

definition status_of :: "nat \<Rightarrow> db \<Rightarrow> sqlval option" where
  "status_of i d = map_option p_status (find (\<lambda>r. p_id r = i) (posts d))"

text \<open>
  What the primary keys and \<^verbatim>\<open>AUTOINCREMENT\<close> guarantee of a store: ids are unique
  and none is above the largest one handed out.
\<close>

definition wf_db :: "db \<Rightarrow> bool" where
  "wf_db d \<longleftrightarrow>
     distinct (map p_id (posts d)) \<and> list_all (\<lambda>r. p_id r \<le> post_seq d) (posts d) \<and>
     distinct (map u_id (users d)) \<and> list_all (\<lambda>u. u_id u \<le> user_seq d) (users d)"

text \<open>
  The sanitization in the words of the specification: each run of whitespace becomes one
  underscore (a whitespace character yields an underscore when it opens a run and nothing
  when it continues one), then every character outside \<^verbatim>\<open>[A-Za-z0-9._-]\<close> is dropped.
\<close>

fun spec_collapse_runs :: "bool \<Rightarrow> jsstring \<Rightarrow> jsstring" where
  "spec_collapse_runs in_run [] = []"
| "spec_collapse_runs in_run (c # cs) =
     (if is_space c then (if in_run then [] else lit ''_'') @ spec_collapse_runs True cs
      else c # spec_collapse_runs False cs)"

definition spec_key_chars :: "16 word set" where
  "spec_key_chars =
     set (lit ''ABCDEFGHIJKLMNOPQRSTUVWXYZabcdefghijklmnopqrstuvwxyz0123456789._-'')"

definition spec_sanitize :: "jsstring \<Rightarrow> jsstring" where
  "spec_sanitize s = filter (\<lambda>c. c \<in> spec_key_chars) (spec_collapse_runs False s)"

text \<open>Required fields of each handler, as its guard lists them.\<close>

definition signup_fields :: "string list" where
  "signup_fields = [''fullName'', ''email'', ''password'']"

definition login_fields :: "string list" where
  "login_fields = [''email'', ''password'']"

definition create_post_fields :: "string list" where
  "create_post_fields = [''title'', ''content'', ''author'', ''username'', ''category'']"

definition s3_fields :: "string list" where
  "s3_fields = [''fileName'', ''fileType'']"

text \<open>Every field of a list is present in a body, that is, passes \<^verbatim>\<open>!field\<close>.\<close>

definition all_present :: "string list \<Rightarrow> body \<Rightarrow> bool" where
  "all_present fs b = list_all (\<lambda>g. \<not> falsy (b g)) fs"

text \<open>The number that a string of decimal digits denotes.\<close>

definition decimal_value :: "jsstring \<Rightarrow> nat" where
  "decimal_value s = foldl (\<lambda>a c. 10 * a + (unat c - 48)) 0 s"

section \<open>Sample inputs\<close>

text \<open>Stand-ins for the libraries, used where a statement is run on a concrete input.\<close>

definition sample_collab :: collab where
  "sample_collab =
     \<lparr>bcrypt_hash = (\<lambda>p rounds. case p of JStr s \<Rightarrow> Some (lit ''$2b$'' @ s) | _ \<Rightarrow> None),
      bcrypt_compare = (\<lambda>p h. case p of JStr s \<Rightarrow> h = SqlText (lit ''$2b$'' @ s) | _ \<Rightarrow> False),
      getSignedUrl = (\<lambda>ps. Inr (lit ''https://signed/'' @ Key ps)),
      S3_BUCKET_NAME = lit ''bucket'',
      AWS_REGION = lit ''us-east-1''\<rparr>"

definition no_fields :: body where
  "no_fields = (\<lambda>f. JUndefined)"

definition sample_post :: body where
  "sample_post =
     no_fields(''title'' := JStr (lit ''T''), ''content'' := JStr (lit ''C''),
               ''author'' := JStr (lit ''Alice''), ''username'' := JStr (lit ''alice''),
               ''category'' := JStr (lit ''news''))"

definition sample_user :: body where
  "sample_user =
     no_fields(''fullName'' := JStr (lit ''Alice''), ''email'' := JStr (lit ''a@x.io''),
               ''password'' := JStr (lit ''pw''))"

definition sample_login :: "string \<Rightarrow> string \<Rightarrow> body" where
  "sample_login e p = no_fields(''email'' := JStr (lit e), ''password'' := JStr (lit p))"

definition sample_post_no_category :: body where
  "sample_post_no_category = sample_post(''category'' := JUndefined)"

definition sample_file :: body where
  "sample_file =
     no_fields(''fileName'' := JStr (lit ''my  photo (1).png''),
               ''fileType'' := JStr (lit ''image/png''))"

section \<open>Basic facts\<close>

lemma lit_Nil [simp]: "lit s = [] \<longleftrightarrow> s = []"
  by (simp add: lit_def)

lemma statuses_distinct:
  "pending \<noteq> approved" "pending \<noteq> rejected" "approved \<noteq> rejected"
  by (simp_all add: pending_def approved_def rejected_def lit_def)

lemma truthy_bind: "\<not> falsy v \<Longrightarrow> bind_param v \<noteq> SqlNull"
  by (cases v) simp_all

lemma truthy_is_string: "\<not> falsy v \<Longrightarrow> \<exists>s. v = JStr s \<and> s \<noteq> []"
  by (cases v) simp_all

lemma bind_or_null: "bind_param (or_null v) = (if falsy v then SqlNull else bind_param v)"
  by (simp add: or_null_def)

section \<open>Submitting a post\<close>

lemma create_post_missing:
  assumes "falsy (b ''title'') \<or> falsy (b ''content'') \<or> falsy (b ''author'') \<or>
           falsy (b ''username'') \<or> falsy (b ''category'')"
  shows "create_post b ts d = ((400, Msg (lit ''Missing fields.'')), d)"
  using assms unfolding create_post_def Let_def by (simp only: if_True)

lemma create_post_ok:
  assumes "\<not> (falsy (b ''title'') \<or> falsy (b ''content'') \<or> falsy (b ''author'') \<or>
           falsy (b ''username'') \<or> falsy (b ''category''))"
  shows "create_post b ts d =
           ((201, Msg (lit ''Post created successfully.'')),
            d\<lparr>posts := posts d @
                 [\<lparr>p_id = post_seq d + 1, p_title = bind_param (b ''title''),
                   p_content = bind_param (b ''content''), p_author = bind_param (b ''author''),
                   p_username = bind_param (b ''username''),
                   p_imageUrl = (if falsy (b ''imageUrl'') then SqlNull
                                 else bind_param (b ''imageUrl'')),
                   p_category = bind_param (b ''category''), p_status = pending,
                   p_createdAt = ts\<rparr>],
              post_seq := post_seq d + 1\<rparr>)"
proof -
  from assms have nn: "bind_param (b ''title'') \<noteq> SqlNull" "bind_param (b ''content'') \<noteq> SqlNull"
    "bind_param (b ''author'') \<noteq> SqlNull"
    by (simp_all add: truthy_bind)
  show ?thesis
    unfolding create_post_def Let_def insert_post_def using assms nn
    by (simp add: bind_or_null pending_def)
qed

lemma find_append_new:
  assumes "list_all (\<lambda>r. p_id r \<le> n) rows" "p_id new = Suc n"
  shows "find (\<lambda>r. p_id r = Suc n) (rows @ [new]) = Some new"
  using assms by (induction rows) auto

text \<open>
  C6. After a successful submit, the new post is persisted with status pending:
  \<^verbatim>\<open>GET /api/posts/:id\<close> on the id that the insert assigned (\<^verbatim>\<open>this.lastID\<close>, the
  new value of the sequence) answers 200 with a row whose status is pending, and that row
  is the one the submit added.
\<close>

theorem create_post_then_get:
  assumes "wf_db d" and "fst (fst (create_post b ts d)) = 201"
  shows "\<exists>row. get_post (post_seq (snd (create_post b ts d))) (snd (create_post b ts d))
                  = (200, PostRow row) \<and>
               p_status row = pending \<and> row \<in> set (posts (snd (create_post b ts d))) \<and>
               row \<notin> set (posts d)"
proof (cases "falsy (b ''title'') \<or> falsy (b ''content'') \<or> falsy (b ''author'') \<or>
           falsy (b ''username'') \<or> falsy (b ''category'')")
  case True
  then show ?thesis using assms(2) by (simp add: create_post_missing)
next
  case False
  define new where "new = \<lparr>p_id = post_seq d + 1, p_title = bind_param (b ''title''),
                   p_content = bind_param (b ''content''), p_author = bind_param (b ''author''),
                   p_username = bind_param (b ''username''),
                   p_imageUrl = (if falsy (b ''imageUrl'') then SqlNull
                                 else bind_param (b ''imageUrl'')),
                   p_category = bind_param (b ''category''), p_status = pending,
                   p_createdAt = ts\<rparr>"
  have d': "snd (create_post b ts d) = d\<lparr>posts := posts d @ [new], post_seq := post_seq d + 1\<rparr>"
    unfolding create_post_ok [OF False] new_def by simp
  have le: "list_all (\<lambda>r. p_id r \<le> post_seq d) (posts d)"
    using assms(1) by (simp add: wf_db_def)
  have idn: "p_id new = Suc (post_seq d)" and stn: "p_status new = pending"
    by (simp_all add: new_def)
  have fresh: "new \<notin> set (posts d)"
    using le idn by (auto simp: list_all_iff)
  have "get_post (post_seq (snd (create_post b ts d))) (snd (create_post b ts d))
          = (200, PostRow new)"
    unfolding d' get_post_def by (simp add: find_append_new [OF le idn])
  moreover have "new \<in> set (posts (snd (create_post b ts d)))"
    unfolding d' by simp
  ultimately show ?thesis using stn fresh by blast
qed

theorem create_post_then_get_witness:
  "wf_db empty_db \<and> fst (fst (create_post sample_post 7 empty_db)) = 201 \<and>
   (\<exists>row. get_post (post_seq (snd (create_post sample_post 7 empty_db)))
             (snd (create_post sample_post 7 empty_db)) = (200, PostRow row) \<and>
          p_status row = pending \<and> row \<in> set (posts (snd (create_post sample_post 7 empty_db))) \<and>
          row \<notin> set (posts empty_db))"
proof -
  have w: "wf_db empty_db" by (simp add: wf_db_def empty_db_def)
  have ok: "fst (fst (create_post sample_post 7 empty_db)) = 201"
    by (simp add: create_post_def sample_post_def no_fields_def insert_post_def)
  show ?thesis using w ok create_post_then_get [OF w ok] by simp
qed

section \<open>Approve and reject\<close>

lemma update_status_changes:
  "fst (update_status s i d) = 0 \<longleftrightarrow> i \<notin> set (map p_id (posts d))"
  by (auto simp: update_status_def filter_empty_conv)

lemma find_set_status:
  "find (\<lambda>r. p_id r = i) (map (\<lambda>r. if p_id r = i then r\<lparr>p_status := s\<rparr> else r) rows) =
     map_option (\<lambda>r. r\<lparr>p_status := s\<rparr>) (find (\<lambda>r. p_id r = i) rows)"
  by (induction rows) simp_all

lemma all_set_status:
  "list_all (\<lambda>r. p_id r = i \<longrightarrow> p_status r = s)
     (map (\<lambda>r. if p_id r = i then r\<lparr>p_status := s\<rparr> else r) rows)"
  by (induction rows) simp_all

lemma find_Some_iff_id: "i \<in> set (map p_id rows) \<Longrightarrow> \<exists>r. find (\<lambda>r. p_id r = i) rows = Some r"
  by (induction rows) auto

lemma approve_found:
  assumes "i \<in> set (map p_id (posts d))"
  shows "approve i d = ((200, Msg (lit ''Post approved.'')), snd (update_status (lit ''approved'') i d))"
  using assms update_status_changes [of "lit ''approved''" i d]
  unfolding approve_def by (simp add: case_prod_beta)

lemma reject_found:
  assumes "i \<in> set (map p_id (posts d))"
  shows "reject i d = ((200, Msg (lit ''Post rejected.'')), snd (update_status (lit ''rejected'') i d))"
  using assms update_status_changes [of "lit ''rejected''" i d]
  unfolding reject_def by (simp add: case_prod_beta)

lemma approve_snd: "snd (approve i d) = snd (update_status (lit ''approved'') i d)"
  unfolding approve_def by (simp add: case_prod_beta)

lemma reject_snd: "snd (reject i d) = snd (update_status (lit ''rejected'') i d)"
  unfolding reject_def by (simp add: case_prod_beta)

lemma update_status_posts:
  "posts (snd (update_status s i d)) =
     map (\<lambda>r. if p_id r = i then r\<lparr>p_status := SqlText s\<rparr> else r) (posts d)"
  by (simp add: update_status_def)

lemma update_status_ids: "map p_id (posts (snd (update_status s i d))) = map p_id (posts d)"
  by (simp add: update_status_posts comp_def)

text \<open>
  C3. For a post id that exists, approve and then reject both answer 200 (each update
  matches the row whatever its status), and afterwards the post is read back with status
  rejected: the later write wins.
\<close>

theorem approve_then_reject:
  assumes "i \<in> set (map p_id (posts d))"
  shows "fst (approve i d) = (200, Msg (lit ''Post approved.'')) \<and>
         fst (reject i (snd (approve i d))) = (200, Msg (lit ''Post rejected.'')) \<and>
         (\<exists>row. get_post i (snd (reject i (snd (approve i d)))) = (200, PostRow row) \<and>
                p_status row = rejected) \<and>
         list_all (\<lambda>r. p_id r = i \<longrightarrow> p_status r = rejected)
           (posts (snd (reject i (snd (approve i d)))))"
proof -
  let ?d1 = "snd (approve i d)"
  let ?d2 = "snd (reject i ?d1)"
  have a: "fst (approve i d) = (200, Msg (lit ''Post approved.''))"
    by (simp add: approve_found [OF assms])
  have in1: "i \<in> set (map p_id (posts ?d1))"
    using assms by (simp only: approve_snd update_status_ids)
  have r: "fst (reject i ?d1) = (200, Msg (lit ''Post rejected.''))"
    by (simp add: reject_found [OF in1])
  obtain r1 where r1: "find (\<lambda>r. p_id r = i) (posts ?d1) = Some r1"
    using find_Some_iff_id [OF in1] by blast
  have "find (\<lambda>r. p_id r = i) (posts ?d2) = Some (r1\<lparr>p_status := rejected\<rparr>)"
    by (simp add: reject_snd update_status_posts find_set_status r1 rejected_def)
  then have g: "get_post i ?d2 = (200, PostRow (r1\<lparr>p_status := rejected\<rparr>))"
    by (simp add: get_post_def)
  have all: "list_all (\<lambda>r. p_id r = i \<longrightarrow> p_status r = rejected) (posts ?d2)"
    by (simp only: reject_snd update_status_posts rejected_def all_set_status)
  from a r g all show ?thesis by simp
qed

theorem approve_then_reject_witness:
  "1 \<in> set (map p_id (posts (snd (create_post sample_post 7 empty_db)))) \<and>
   fst (approve 1 (snd (create_post sample_post 7 empty_db))) = (200, Msg (lit ''Post approved.'')) \<and>
   fst (reject 1 (snd (approve 1 (snd (create_post sample_post 7 empty_db)))))
     = (200, Msg (lit ''Post rejected.''))"
proof -
  have h: "1 \<in> set (map p_id (posts (snd (create_post sample_post 7 empty_db))))"
    by (simp add: create_post_def sample_post_def no_fields_def insert_post_def empty_db_def)
  show ?thesis using h approve_then_reject [OF h] by simp
qed

text \<open>
  C9. Approve and reject change nothing but the status of the rows with the given id: the
  users table and both sequences are as before, the posts table has the same rows in the
  same places with the same id, title, content, author, username, imageUrl, category and
  createdAt, and a row with another id is unchanged as a whole. No row appears or
  disappears.
\<close>

theorem approve_reject_frame:
  assumes "d' = snd (approve i d) \<or> d' = snd (reject i d)"
  shows "users d' = users d \<and> user_seq d' = user_seq d \<and> post_seq d' = post_seq d \<and>
         length (posts d') = length (posts d) \<and>
         map p_id (posts d') = map p_id (posts d) \<and>
         map p_title (posts d') = map p_title (posts d) \<and>
         map p_content (posts d') = map p_content (posts d) \<and>
         map p_author (posts d') = map p_author (posts d) \<and>
         map p_username (posts d') = map p_username (posts d) \<and>
         map p_imageUrl (posts d') = map p_imageUrl (posts d) \<and>
         map p_category (posts d') = map p_category (posts d) \<and>
         map p_createdAt (posts d') = map p_createdAt (posts d) \<and>
         (\<forall>k < length (posts d). p_id (posts d ! k) \<noteq> i \<longrightarrow> posts d' ! k = posts d ! k)"
proof -
  obtain s where d': "d' = snd (update_status s i d)"
    using assms by (auto simp: approve_snd reject_snd)
  have p: "posts d' = map (\<lambda>r. if p_id r = i then r\<lparr>p_status := SqlText s\<rparr> else r) (posts d)"
    by (simp add: d' update_status_posts)
  have u: "users d' = users d \<and> user_seq d' = user_seq d \<and> post_seq d' = post_seq d"
    by (simp add: d' update_status_def)
  have f: "map p_id (posts d') = map p_id (posts d)" "map p_title (posts d') = map p_title (posts d)"
    "map p_content (posts d') = map p_content (posts d)"
    "map p_author (posts d') = map p_author (posts d)"
    "map p_username (posts d') = map p_username (posts d)"
    "map p_imageUrl (posts d') = map p_imageUrl (posts d)"
    "map p_category (posts d') = map p_category (posts d)"
    "map p_createdAt (posts d') = map p_createdAt (posts d)"
    unfolding p by (simp_all add: comp_def)
  have n: "\<forall>k < length (posts d). p_id (posts d ! k) \<noteq> i \<longrightarrow> posts d' ! k = posts d ! k"
    unfolding p by simp
  have l: "length (posts d') = length (posts d)" unfolding p by simp
  show ?thesis using u l f n by simp
qed

theorem approve_reject_frame_witness:
  "(snd (approve 1 (snd (create_post sample_post 7 empty_db)))
      = snd (approve 1 (snd (create_post sample_post 7 empty_db))) \<or>
    snd (approve 1 (snd (create_post sample_post 7 empty_db)))
      = snd (reject 1 (snd (create_post sample_post 7 empty_db)))) \<and>
   map p_title (posts (snd (approve 1 (snd (create_post sample_post 7 empty_db)))))
     = map p_title (posts (snd (create_post sample_post 7 empty_db))) \<and>
   length (posts (snd (approve 1 (snd (create_post sample_post 7 empty_db))))) = 1"
proof -
  have l: "length (posts (snd (create_post sample_post 7 empty_db))) = 1"
    by (simp add: create_post_def sample_post_def no_fields_def insert_post_def empty_db_def)
  show ?thesis
    using l approve_reject_frame [of "snd (approve 1 (snd (create_post sample_post 7 empty_db)))" 1
                                  "snd (create_post sample_post 7 empty_db)"]
    by simp
qed

section \<open>Listings\<close>

lemma order_by_mset: "mset (order_by_createdAt_desc rows) = mset rows"
  by (simp add: order_by_createdAt_desc_def)

lemma order_by_sorted:
  "sorted_wrt (\<lambda>a b. p_createdAt b \<le> p_createdAt a) (order_by_createdAt_desc rows)"
proof -
  have "sorted (map (\<lambda>r. - int (p_createdAt r)) (order_by_createdAt_desc rows))"
    unfolding order_by_createdAt_desc_def by (rule sorted_sort_key)
  then show ?thesis by (simp add: sorted_map)
qed

lemma order_by_set: "set (order_by_createdAt_desc rows) = set rows"
  by (simp add: order_by_createdAt_desc_def)

text \<open>
  C7. \<^verbatim>\<open>GET /api/posts\<close> answers with every stored post (the same rows, each as often as
  stored), newest first. \<^verbatim>\<open>GET /api/posts/approved\<close> answers with exactly the stored posts
  whose status is approved, newest first, so none of its rows is pending or rejected. Both
  hold of any store, hence after any sequence of submits, approvals and rejections.
\<close>

theorem listings_sorted_and_filtered:
  "(\<exists>rows. get_posts d = (200, PostRows rows) \<and> mset rows = mset (posts d) \<and>
           sorted_wrt (\<lambda>a b. p_createdAt b \<le> p_createdAt a) rows) \<and>
   (\<exists>rows. get_approved d = (200, PostRows rows) \<and>
           mset rows = filter_mset (\<lambda>r. p_status r = approved) (mset (posts d)) \<and>
           list_all (\<lambda>r. p_status r = approved \<and> p_status r \<noteq> pending \<and>
                         p_status r \<noteq> rejected) rows \<and>
           sorted_wrt (\<lambda>a b. p_createdAt b \<le> p_createdAt a) rows) \<and>
   (\<exists>rows. get_approved (serve c qs empty_db) = (200, PostRows rows) \<and>
           list_all (\<lambda>r. p_status r = approved \<and> p_status r \<noteq> pending \<and>
                         p_status r \<noteq> rejected) rows)"
proof -
  have all: "\<exists>rows. get_posts d = (200, PostRows rows) \<and> mset rows = mset (posts d) \<and>
           sorted_wrt (\<lambda>a b. p_createdAt b \<le> p_createdAt a) rows"
    by (simp add: get_posts_def order_by_mset order_by_sorted)
  have appr: "\<exists>rows. get_approved e = (200, PostRows rows) \<and>
           mset rows = filter_mset (\<lambda>r. p_status r = approved) (mset (posts e)) \<and>
           list_all (\<lambda>r. p_status r = approved \<and> p_status r \<noteq> pending \<and>
                         p_status r \<noteq> rejected) rows \<and>
           sorted_wrt (\<lambda>a b. p_createdAt b \<le> p_createdAt a) rows" for e
  proof -
    let ?rows = "order_by_createdAt_desc (filter (\<lambda>r. p_status r = approved) (posts e))"
    have g: "get_approved e = (200, PostRows ?rows)"
      by (simp add: get_approved_def approved_def)
    have m: "mset ?rows = filter_mset (\<lambda>r. p_status r = approved) (mset (posts e))"
      by (simp add: order_by_mset)
    have a: "\<forall>r\<in>set ?rows. p_status r = approved"
      by (simp add: order_by_set)
    have l: "list_all (\<lambda>r. p_status r = approved \<and> p_status r \<noteq> pending \<and>
                         p_status r \<noteq> rejected) ?rows"
      unfolding list_all_iff
    proof (intro ballI conjI)
      fix r assume "r \<in> set ?rows"
      with a have e: "p_status r = approved" by (rule bspec)
      show "p_status r = approved" by (rule e)
      show "p_status r \<noteq> pending" unfolding e using statuses_distinct(1) by (rule not_sym)
      show "p_status r \<noteq> rejected" unfolding e by (rule statuses_distinct(3))
    qed
    show ?thesis by (intro exI [of _ ?rows] conjI g m l order_by_sorted)
  qed
  have reach: "\<exists>rows. get_approved (serve c qs empty_db) = (200, PostRows rows) \<and>
           list_all (\<lambda>r. p_status r = approved \<and> p_status r \<noteq> pending \<and>
                         p_status r \<noteq> rejected) rows"
    using appr [of "serve c qs empty_db"] by (elim exE conjE) (intro exI conjI)
  show ?thesis by (intro conjI all appr reach)
qed

theorem listings_sorted_and_filtered_witness:
  "\<exists>rows. get_approved
     (serve sample_collab [CreatePost sample_post 7, CreatePost sample_post 9, Approve 2, Reject 1]
        empty_db) = (200, PostRows rows) \<and> map p_id rows = [2]"
proof -
  have "get_approved
     (serve sample_collab [CreatePost sample_post 7, CreatePost sample_post 9, Approve 2, Reject 1]
        empty_db) = (200, PostRows [\<lparr>p_id = 2, p_title = SqlText (lit ''T''),
           p_content = SqlText (lit ''C''), p_author = SqlText (lit ''Alice''),
           p_username = SqlText (lit ''alice''), p_imageUrl = SqlNull,
           p_category = SqlText (lit ''news''), p_status = approved, p_createdAt = 9\<rparr>])"
    by (simp add: create_post_def sample_post_def no_fields_def insert_post_def empty_db_def
        approve_def reject_def update_status_def get_approved_def order_by_createdAt_desc_def
        or_null_def approved_def lit_def)
  then show ?thesis
    using listings_sorted_and_filtered [of "serve sample_collab
        [CreatePost sample_post 7, CreatePost sample_post 9, Approve 2, Reject 1] empty_db"
        sample_collab "[]"]
    by simp
qed

section \<open>Login and signup\<close>

lemma find_None_email:
  "e \<notin> set (map u_email us) \<Longrightarrow> find (\<lambda>u. u_email u = e) us = None"
  by (induction us) auto

text \<open>
  C4. A login with an email that no user has and a login with the email of a user but a
  password that \<^verbatim>\<open>bcrypt.compare\<close> rejects get the same response, status 401 with
  the message \<^verbatim>\<open>Invalid credentials.\<close> and nothing else: the caller cannot tell the two
  apart from the response. (Response times are not part of the model.)
\<close>

theorem login_failures_indistinguishable:
  assumes "\<not> falsy (b1 ''email'')" "\<not> falsy (b1 ''password'')"
      and "\<not> falsy (b2 ''email'')" "\<not> falsy (b2 ''password'')"
      and "bind_param (b1 ''email'') \<notin> set (map u_email (users d))"
      and "find (\<lambda>u. u_email u = bind_param (b2 ''email'')) (users d) = Some user"
      and "\<not> bcrypt_compare c (b2 ''password'') (u_password user)"
  shows "login c b1 d = (401, Msg (lit ''Invalid credentials.'')) \<and>
         login c b2 d = (401, Msg (lit ''Invalid credentials.'')) \<and>
         login c b1 d = login c b2 d"
proof -
  have 1: "login c b1 d = (401, Msg (lit ''Invalid credentials.''))"
    using assms(1,2) find_None_email [OF assms(5)] by (simp add: login_def)
  have 2: "login c b2 d = (401, Msg (lit ''Invalid credentials.''))"
    using assms(3,4,6,7) by (simp add: login_def)
  from 1 2 show ?thesis by simp
qed

lemma sample_signup:
  "signup sample_collab sample_user empty_db =
     ((201, Msg (lit ''User registered successfully!'')),
      \<lparr>users = [\<lparr>u_id = 1, u_fullName = SqlText (lit ''Alice''),
                 u_email = SqlText (lit ''a@x.io''), u_password = SqlText (lit ''$2b$pw'')\<rparr>],
       user_seq = 1, posts = [], post_seq = 0\<rparr>)"
  by (simp add: signup_def sample_user_def sample_collab_def no_fields_def insert_user_def
      empty_db_def lit_def)

theorem login_failures_indistinguishable_witness:
  "login sample_collab (sample_login ''b@x.io'' ''pw'') (snd (signup sample_collab sample_user empty_db))
     = (401, Msg (lit ''Invalid credentials.'')) \<and>
   login sample_collab (sample_login ''a@x.io'' ''no'') (snd (signup sample_collab sample_user empty_db))
     = (401, Msg (lit ''Invalid credentials.''))"
proof -
  let ?d = "snd (signup sample_collab sample_user empty_db)"
  let ?u = "\<lparr>u_id = 1, u_fullName = SqlText (lit ''Alice''),
                 u_email = SqlText (lit ''a@x.io''), u_password = SqlText (lit ''$2b$pw'')\<rparr>"
  have a: "\<not> falsy (sample_login ''b@x.io'' ''pw'' ''email'')"
          "\<not> falsy (sample_login ''b@x.io'' ''pw'' ''password'')"
          "\<not> falsy (sample_login ''a@x.io'' ''no'' ''email'')"
          "\<not> falsy (sample_login ''a@x.io'' ''no'' ''password'')"
    by (simp_all add: sample_login_def)
  have n: "bind_param (sample_login ''b@x.io'' ''pw'' ''email'') \<notin> set (map u_email (users ?d))"
    by (simp add: sample_signup sample_login_def lit_def)
  have f: "find (\<lambda>u. u_email u = bind_param (sample_login ''a@x.io'' ''no'' ''email'')) (users ?d)
             = Some ?u"
    by (simp add: sample_signup sample_login_def)
  have w: "\<not> bcrypt_compare sample_collab (sample_login ''a@x.io'' ''no'' ''password'') (u_password ?u)"
    by (simp add: sample_login_def sample_collab_def lit_def)
  show ?thesis
    using login_failures_indistinguishable [OF a n f w] by simp
qed

text \<open>
  C5. When a user with the email already exists, a further signup with that email (all
  three fields present, the password hashed without error) answers 409 with
  \<^verbatim>\<open>Email already exists.\<close> and leaves the store as it was: no row is inserted or
  modified, the first user's row included.
\<close>

theorem signup_duplicate_email:
  assumes "\<not> falsy (b ''fullName'')" "\<not> falsy (b ''email'')" "\<not> falsy (b ''password'')"
      and "bind_param (b ''email'') \<in> set (map u_email (users d))"
      and "bcrypt_hash c (b ''password'') 10 = Some h"
  shows "signup c b d = ((409, Msg (lit ''Email already exists.'')), d)"
proof -
  have nn: "bind_param (b ''fullName'') \<noteq> SqlNull" "bind_param (b ''email'') \<noteq> SqlNull"
    using assms(1,2) by (simp_all add: truthy_bind)
  have "insert_user (bind_param (b ''fullName'')) (bind_param (b ''email'')) (SqlText h) d
          = Inl UNIQUE_constraint_failed"
    using nn assms(4) by (simp add: insert_user_def)
  then show ?thesis
    using assms(1,2,3,5) by (simp add: signup_def)
qed

theorem signup_duplicate_email_witness:
  "signup sample_collab sample_user (snd (signup sample_collab sample_user empty_db))
     = ((409, Msg (lit ''Email already exists.'')), snd (signup sample_collab sample_user empty_db))"
proof -
  have a: "\<not> falsy (sample_user ''fullName'')" "\<not> falsy (sample_user ''email'')"
          "\<not> falsy (sample_user ''password'')"
    by (simp_all add: sample_user_def)
  have e: "bind_param (sample_user ''email'')
             \<in> set (map u_email (users (snd (signup sample_collab sample_user empty_db))))"
    unfolding sample_signup by (simp add: sample_user_def)
  have h: "bcrypt_hash sample_collab (sample_user ''password'') 10 = Some (lit ''$2b$pw'')"
    by (simp add: sample_user_def sample_collab_def lit_def)
  show ?thesis using signup_duplicate_email [OF a e h] by simp
qed

section \<open>Validation of a submitted post\<close>

text \<open>
  C2, as stated, fails: a body with title, content, author and username but no category
  is answered 400 \<^verbatim>\<open>Missing fields.\<close> and no post is created.
\<close>

theorem create_post_without_category_rejected:
  "\<not> falsy (sample_post_no_category ''title'') \<and>
   \<not> falsy (sample_post_no_category ''content'') \<and>
   \<not> falsy (sample_post_no_category ''author'') \<and>
   \<not> falsy (sample_post_no_category ''username'') \<and>
   sample_post_no_category ''category'' = JUndefined \<and>
   create_post sample_post_no_category 7 empty_db
     = ((400, Msg (lit ''Missing fields.'')), empty_db) \<and>
   posts (snd (create_post sample_post_no_category 7 empty_db)) = []"
  by (simp add: sample_post_no_category_def sample_post_def no_fields_def create_post_def
      empty_db_def)

text \<open>
  C2, amended. \<^verbatim>\<open>POST /api/posts\<close> answers 400 exactly when title, content, author,
  username or category is missing (absent, null or empty), and then stores nothing.
  Otherwise it answers 201 and appends one row that holds the five fields as sent, the
  category included, and for imageUrl the value sent or NULL when it is missing.
\<close>

theorem create_post_validation:
  "(fst (fst (create_post b ts d)) = 400 \<longleftrightarrow>
      falsy (b ''title'') \<or> falsy (b ''content'') \<or> falsy (b ''author'') \<or>
      falsy (b ''username'') \<or> falsy (b ''category'')) \<and>
   (fst (fst (create_post b ts d)) = 400 \<longrightarrow>
      create_post b ts d = ((400, Msg (lit ''Missing fields.'')), d)) \<and>
   (fst (fst (create_post b ts d)) \<noteq> 400 \<longrightarrow>
      fst (create_post b ts d) = (201, Msg (lit ''Post created successfully.'')) \<and>
      posts (snd (create_post b ts d)) = posts d @
        [\<lparr>p_id = post_seq d + 1, p_title = bind_param (b ''title''),
          p_content = bind_param (b ''content''), p_author = bind_param (b ''author''),
          p_username = bind_param (b ''username''),
          p_imageUrl = (if falsy (b ''imageUrl'') then SqlNull else bind_param (b ''imageUrl'')),
          p_category = bind_param (b ''category''), p_status = pending, p_createdAt = ts\<rparr>])"
proof (cases "falsy (b ''title'') \<or> falsy (b ''content'') \<or> falsy (b ''author'') \<or>
           falsy (b ''username'') \<or> falsy (b ''category'')")
  case True
  show ?thesis unfolding create_post_missing [OF True] using True by simp
next
  case False
  show ?thesis unfolding create_post_ok [OF False] using False by simp
qed

theorem create_post_validation_witness:
  "fst (fst (create_post sample_post 7 empty_db)) \<noteq> 400 \<and>
   map p_category (posts (snd (create_post sample_post 7 empty_db))) = [SqlText (lit ''news'')] \<and>
   map p_imageUrl (posts (snd (create_post sample_post 7 empty_db))) = [SqlNull] \<and>
   fst (fst (create_post sample_post_no_category 7 empty_db)) = 400"
proof -
  have a: "\<not> (falsy (sample_post ''title'') \<or> falsy (sample_post ''content'') \<or>
              falsy (sample_post ''author'') \<or> falsy (sample_post ''username'') \<or>
              falsy (sample_post ''category''))"
          "falsy (sample_post ''imageUrl'')" "bind_param (sample_post ''category'') = SqlText (lit ''news'')"
    by (simp_all add: sample_post_def no_fields_def)
  have b: "falsy (sample_post_no_category ''category'')"
    by (simp add: sample_post_no_category_def)
  have e: "posts empty_db = []" by (simp add: empty_db_def)
  show ?thesis
    using a b e create_post_validation [of sample_post 7 empty_db]
      create_post_validation [of sample_post_no_category 7 empty_db]
    by simp
qed

section \<open>Presence checks\<close>

lemma signup_invalid:
  "\<not> all_present signup_fields b \<Longrightarrow>
     signup c b d = ((400, Msg (lit ''All fields required.'')), d)"
  by (auto simp: all_present_def signup_fields_def signup_def)

lemma signup_valid: "all_present signup_fields b \<Longrightarrow> fst (fst (signup c b d)) \<noteq> 400"
  by (auto simp: all_present_def signup_fields_def signup_def split: option.splits sum.splits)

lemma login_invalid:
  "\<not> all_present login_fields b \<Longrightarrow>
     login c b d = (400, Msg (lit ''Email and password required.''))"
  by (auto simp: all_present_def login_fields_def login_def)

lemma login_valid: "all_present login_fields b \<Longrightarrow> fst (login c b d) \<noteq> 400"
  by (auto simp: all_present_def login_fields_def login_def split: option.splits)

lemma create_post_invalid:
  "\<not> all_present create_post_fields b \<Longrightarrow>
     create_post b ts d = ((400, Msg (lit ''Missing fields.'')), d)"
  by (rule create_post_missing) (auto simp: all_present_def create_post_fields_def)

lemma create_post_valid:
  assumes "all_present create_post_fields b"
  shows "fst (create_post b ts d) = (201, Msg (lit ''Post created successfully.''))"
proof -
  have "\<not> (falsy (b ''title'') \<or> falsy (b ''content'') \<or> falsy (b ''author'') \<or>
           falsy (b ''username'') \<or> falsy (b ''category''))"
    using assms by (simp add: all_present_def create_post_fields_def)
  then show ?thesis by (simp add: create_post_ok)
qed

lemma s3_invalid:
  "\<not> all_present s3_fields b \<Longrightarrow>
     s3_presigned_url c b now = (400, Msg (lit ''Missing file info.''))"
  by (auto simp: all_present_def s3_fields_def s3_presigned_url_def)

lemma s3_valid: "all_present s3_fields b \<Longrightarrow> fst (s3_presigned_url c b now) \<noteq> 400"
  by (auto simp: all_present_def s3_fields_def s3_presigned_url_def Let_def
      split: jsval.splits sum.splits)

lemma present_with_string:
  assumes "f \<in> set fs" "list_all (\<lambda>g. g = f \<or> \<not> falsy (b g)) fs" "ws \<noteq> []"
  shows "all_present fs (b(f := JStr ws))"
  using assms by (auto simp: all_present_def list_all_iff)

lemma absent_with_falsy:
  assumes "f \<in> set fs" "falsy v"
  shows "\<not> all_present fs (b(f := v))"
  using assms by (auto simp: all_present_def list_all_iff)

text \<open>
  C10. In the four handlers that check for required fs (signup, login, create post,
  upload URL), a required field that is a non-empty string of whitespace only passes the
  check: with the other required fs present the answer is not 400 (for a post it is
  201). A required field that is the empty string gets the answer of an absent field, 400
  with the handler's message, and the store is unchanged.
\<close>

theorem whitespace_passes_empty_fails:
  assumes "ws \<noteq> []" and "list_all is_space ws"
  shows
    "(f \<in> set signup_fields \<and> list_all (\<lambda>g. g = f \<or> \<not> falsy (b g)) signup_fields \<longrightarrow>
        fst (fst (signup c (b(f := JStr ws)) d)) \<noteq> 400) \<and>
     (f \<in> set login_fields \<and> list_all (\<lambda>g. g = f \<or> \<not> falsy (b g)) login_fields \<longrightarrow>
        fst (login c (b(f := JStr ws)) d) \<noteq> 400) \<and>
     (f \<in> set create_post_fields \<and> list_all (\<lambda>g. g = f \<or> \<not> falsy (b g)) create_post_fields \<longrightarrow>
        fst (create_post (b(f := JStr ws)) ts d) = (201, Msg (lit ''Post created successfully.''))) \<and>
     (f \<in> set s3_fields \<and> list_all (\<lambda>g. g = f \<or> \<not> falsy (b g)) s3_fields \<longrightarrow>
        fst (s3_presigned_url c (b(f := JStr ws)) now) \<noteq> 400) \<and>
     (f \<in> set signup_fields \<longrightarrow>
        signup c (b(f := JStr [])) d = signup c (b(f := JUndefined)) d \<and>
        signup c (b(f := JStr [])) d = ((400, Msg (lit ''All fields required.'')), d)) \<and>
     (f \<in> set login_fields \<longrightarrow>
        login c (b(f := JStr [])) d = login c (b(f := JUndefined)) d \<and>
        login c (b(f := JStr [])) d = (400, Msg (lit ''Email and password required.''))) \<and>
     (f \<in> set create_post_fields \<longrightarrow>
        create_post (b(f := JStr [])) ts d = create_post (b(f := JUndefined)) ts d \<and>
        create_post (b(f := JStr [])) ts d = ((400, Msg (lit ''Missing fields.'')), d)) \<and>
     (f \<in> set s3_fields \<longrightarrow>
        s3_presigned_url c (b(f := JStr [])) now = s3_presigned_url c (b(f := JUndefined)) now \<and>
        s3_presigned_url c (b(f := JStr [])) now = (400, Msg (lit ''Missing file info.'')))"
proof -
  have e: "falsy (JStr [])" and u: "falsy JUndefined" by simp_all
  have 1: "f \<in> set signup_fields \<and> list_all (\<lambda>g. g = f \<or> \<not> falsy (b g)) signup_fields \<longrightarrow>
        fst (fst (signup c (b(f := JStr ws)) d)) \<noteq> 400"
    using present_with_string [of f signup_fields b ws] assms(1) signup_valid by blast
  have 2: "f \<in> set login_fields \<and> list_all (\<lambda>g. g = f \<or> \<not> falsy (b g)) login_fields \<longrightarrow>
        fst (login c (b(f := JStr ws)) d) \<noteq> 400"
    using present_with_string [of f login_fields b ws] assms(1) login_valid by blast
  have 3: "f \<in> set create_post_fields \<and> list_all (\<lambda>g. g = f \<or> \<not> falsy (b g)) create_post_fields \<longrightarrow>
        fst (create_post (b(f := JStr ws)) ts d) = (201, Msg (lit ''Post created successfully.''))"
    using present_with_string [of f create_post_fields b ws] assms(1) create_post_valid by blast
  have 4: "f \<in> set s3_fields \<and> list_all (\<lambda>g. g = f \<or> \<not> falsy (b g)) s3_fields \<longrightarrow>
        fst (s3_presigned_url c (b(f := JStr ws)) now) \<noteq> 400"
    using present_with_string [of f s3_fields b ws] assms(1) s3_valid by blast
  have 5: "f \<in> set signup_fields \<longrightarrow>
        signup c (b(f := JStr [])) d = signup c (b(f := JUndefined)) d \<and>
        signup c (b(f := JStr [])) d = ((400, Msg (lit ''All fields required.'')), d)"
    using absent_with_falsy [of f signup_fields _ b] e u by (simp add: signup_invalid)
  have 6: "f \<in> set login_fields \<longrightarrow>
        login c (b(f := JStr [])) d = login c (b(f := JUndefined)) d \<and>
        login c (b(f := JStr [])) d = (400, Msg (lit ''Email and password required.''))"
    using absent_with_falsy [of f login_fields _ b] e u by (simp add: login_invalid)
  have 7: "f \<in> set create_post_fields \<longrightarrow>
        create_post (b(f := JStr [])) ts d = create_post (b(f := JUndefined)) ts d \<and>
        create_post (b(f := JStr [])) ts d = ((400, Msg (lit ''Missing fields.'')), d)"
    using absent_with_falsy [of f create_post_fields _ b] e u by (simp add: create_post_invalid)
  have 8: "f \<in> set s3_fields \<longrightarrow>
        s3_presigned_url c (b(f := JStr [])) now = s3_presigned_url c (b(f := JUndefined)) now \<and>
        s3_presigned_url c (b(f := JStr [])) now = (400, Msg (lit ''Missing file info.''))"
    using absent_with_falsy [of f s3_fields _ b] e u by (simp add: s3_invalid)
  show ?thesis by (intro conjI 1 2 3 4 5 6 7 8)
qed

theorem whitespace_passes_empty_fails_witness:
  "[0x20, 0x09] \<noteq> ([] :: jsstring) \<and> list_all is_space [0x20, 0x09] \<and>
   fst (create_post (sample_post(''title'' := JStr [0x20, 0x09])) 7 empty_db)
     = (201, Msg (lit ''Post created successfully.'')) \<and>
   create_post (sample_post(''title'' := JStr [])) 7 empty_db
     = ((400, Msg (lit ''Missing fields.'')), empty_db)"
proof -
  have n: "[0x20, 0x09] \<noteq> ([] :: jsstring)" by simp
  have w: "list_all is_space [0x20, 0x09]" by (simp add: is_space_def)
  have m: "''title'' \<in> set create_post_fields" by (simp add: create_post_fields_def)
  have o: "list_all (\<lambda>g. g = ''title'' \<or> \<not> falsy (sample_post g)) create_post_fields"
    by (simp add: create_post_fields_def sample_post_def no_fields_def)
  show ?thesis
    using n w m o
      whitespace_passes_empty_fails [OF n w, where f = "''title''" and b = sample_post
        and ts = 7 and d = empty_db and c = sample_collab and now = 0]
    by blast
qed

section \<open>The upload grant\<close>

lemma collapse_runs_replace:
  "spec_collapse_runs True cs = replace_spaces (dropWhile is_space cs) \<and>
   spec_collapse_runs False cs = replace_spaces cs"
  by (induction cs) (simp_all add: lit_def)

lemma nat_range_cases:
  "unat (c::16 word) \<in> {a..<b} \<Longrightarrow> c \<in> set (map of_nat [a..<b])"
proof -
  assume "unat c \<in> {a..<b}"
  then have "of_nat (unat c) \<in> (of_nat ` {a..<b} :: 16 word set)" by (rule imageI)
  then show ?thesis by simp
qed

lemma key_char_enum_imp: "is_key_char c \<Longrightarrow> c \<in> spec_key_chars"
proof -
  assume k: "is_key_char c"
  have a: "unat c \<in> {97..<123} \<or> unat c \<in> {65..<91} \<or> unat c \<in> {48..<58}
     \<or> c = 46 \<or> c = 95 \<or> c = 45"
    using k unfolding is_key_char_def by (auto simp: word_le_nat_alt)
  then have "c \<in> set (map of_nat [97..<123]) \<or> c \<in> set (map of_nat [65..<91]) \<or>
    c \<in> set (map of_nat [48..<58]) \<or> c = 46 \<or> c = 95 \<or> c = 45"
    using nat_range_cases by blast
  then show ?thesis
    unfolding spec_key_chars_def lit_def
    by (simp add: upt_conv_Cons) blast
qed

lemma key_char_enum_rev: "c \<in> spec_key_chars \<Longrightarrow> is_key_char c"
  unfolding spec_key_chars_def lit_def is_key_char_def
  by (simp, elim disjE) simp_all

lemma key_char_spec: "is_key_char = (\<lambda>c. c \<in> spec_key_chars)"
  using key_char_enum_imp key_char_enum_rev by blast

lemma sanitize_spec: "sanitize s = spec_sanitize s"
  by (simp add: sanitize_def spec_sanitize_def remove_others_def collapse_runs_replace
      key_char_spec)

lemma decimal_foldl:
  "foldl (\<lambda>a c. 10 * a + (unat (c::16 word) - 48)) 0 (decimal n) = n"
proof (induction n rule: decimal.induct)
  case (1 n)
  show ?case
  proof (cases "n < 10")
    case True
    then have "unat (of_nat (48 + n) :: 16 word) = 48 + n"
      by (intro of_nat_inverse [OF refl]) simp
    with True show ?thesis by (subst decimal.simps) simp
  next
    case False
    have "n mod 10 < 10" by simp
    then have u: "unat (of_nat (48 + n mod 10) :: 16 word) = 48 + n mod 10"
      by (intro of_nat_inverse [OF refl]) simp
    show ?thesis
      using False "1.IH" [OF False] u by (subst decimal.simps) simp
  qed
qed

text \<open>
  C8. When fileName and fileType are present, the request to the signer is made for the key
  \<^verbatim>\<open>posts/<now>-<sanitized name>\<close>, where \<open>now\<close> is \<^verbatim>\<open>Date.now()\<close> in decimal digits and
  the name is sanitized by collapsing each run of whitespace to one underscore and then
  dropping every character outside \<^verbatim>\<open>[A-Za-z0-9._-]\<close>; it asks for an expiry of 300
  seconds and the content type fileType. The answer is the signer's URL with the public URL
  of the same key, or 500 with the signer's reason.
\<close>

theorem upload_grant_key_and_window:
  assumes "\<not> falsy (b ''fileName'')" and "\<not> falsy (b ''fileType'')"
  shows "\<exists>name. b ''fileName'' = JStr name \<and>
           decimal_value (decimal now) = now \<and>
           s3_presigned_url c b now =
             (case getSignedUrl c
                     \<lparr>Bucket = S3_BUCKET_NAME c,
                      Key = lit ''posts/'' @ decimal now @ lit ''-'' @ spec_sanitize name,
                      Expires = 300, ContentType = b ''fileType''\<rparr> of
                Inl message \<Rightarrow>
                  (500, Msg (lit ''S3 URL generation failed. Details: '' @
                             message_or_unknown message))
              | Inr uploadUrl \<Rightarrow>
                  (200, UploadUrls uploadUrl
                     (lit ''https://'' @ S3_BUCKET_NAME c @ lit ''.s3.'' @ AWS_REGION c @
                      lit ''.amazonaws.com/'' @
                      lit ''posts/'' @ decimal now @ lit ''-'' @ spec_sanitize name)))"
proof -
  obtain name where n: "b ''fileName'' = JStr name" "name \<noteq> []"
    using truthy_is_string [OF assms(1)] by blast
  have v: "decimal_value (decimal now) = now"
    by (simp add: decimal_value_def decimal_foldl)
  have r: "s3_presigned_url c b now =
             (case getSignedUrl c
                     \<lparr>Bucket = S3_BUCKET_NAME c,
                      Key = lit ''posts/'' @ decimal now @ lit ''-'' @ spec_sanitize name,
                      Expires = 300, ContentType = b ''fileType''\<rparr> of
                Inl message \<Rightarrow>
                  (500, Msg (lit ''S3 URL generation failed. Details: '' @
                             message_or_unknown message))
              | Inr uploadUrl \<Rightarrow>
                  (200, UploadUrls uploadUrl
                     (lit ''https://'' @ S3_BUCKET_NAME c @ lit ''.s3.'' @ AWS_REGION c @
                      lit ''.amazonaws.com/'' @
                      lit ''posts/'' @ decimal now @ lit ''-'' @ spec_sanitize name)))"
    using assms(2) n by (simp add: s3_presigned_url_def Let_def sanitize_spec)
  show ?thesis by (intro exI [of _ name] conjI n(1) v r)
qed

lemma sample_sanitize: "sanitize (lit ''my  photo (1).png'') = lit ''my_photo_1.png''"
  by (simp add: sanitize_def remove_others_def lit_def is_space_def is_key_char_def)

lemma sample_decimal: "decimal 1700000000123 = lit ''1700000000123''"
  by (simp add: decimal.simps lit_def)

theorem upload_grant_key_and_window_witness:
  "\<not> falsy (sample_file ''fileName'') \<and> \<not> falsy (sample_file ''fileType'') \<and>
   s3_presigned_url sample_collab sample_file 1700000000123 =
     (200, UploadUrls (lit ''https://signed/posts/1700000000123-my_photo_1.png'')
        (lit ''https://bucket.s3.us-east-1.amazonaws.com/posts/1700000000123-my_photo_1.png''))"
proof -
  have a: "\<not> falsy (sample_file ''fileName'')" "\<not> falsy (sample_file ''fileType'')"
    by (simp_all add: sample_file_def)
  have n: "sample_file ''fileName'' = JStr (lit ''my  photo (1).png'')"
    by (simp add: sample_file_def)
  have s: "spec_sanitize (lit ''my  photo (1).png'') = lit ''my_photo_1.png''"
    using sample_sanitize by (simp only: sanitize_spec)
  obtain name where t: "sample_file ''fileName'' = JStr name"
    "s3_presigned_url sample_collab sample_file 1700000000123 =
             (case getSignedUrl sample_collab
                     \<lparr>Bucket = S3_BUCKET_NAME sample_collab,
                      Key = lit ''posts/'' @ decimal 1700000000123 @ lit ''-'' @ spec_sanitize name,
                      Expires = 300, ContentType = sample_file ''fileType''\<rparr> of
                Inl message \<Rightarrow>
                  (500, Msg (lit ''S3 URL generation failed. Details: '' @
                             message_or_unknown message))
              | Inr uploadUrl \<Rightarrow>
                  (200, UploadUrls uploadUrl
                     (lit ''https://'' @ S3_BUCKET_NAME sample_collab @ lit ''.s3.'' @
                      AWS_REGION sample_collab @ lit ''.amazonaws.com/'' @
                      lit ''posts/'' @ decimal 1700000000123 @ lit ''-'' @ spec_sanitize name)))"
    using upload_grant_key_and_window [OF a, of 1700000000123 sample_collab] by blast
  from t(1) n have "name = lit ''my  photo (1).png''" by simp
  with t(2) s have "s3_presigned_url sample_collab sample_file 1700000000123 =
     (200, UploadUrls (lit ''https://signed/posts/1700000000123-my_photo_1.png'')
        (lit ''https://bucket.s3.us-east-1.amazonaws.com/posts/1700000000123-my_photo_1.png''))"
    by (simp add: sample_collab_def sample_decimal lit_def)
  with a show ?thesis by simp
qed

section \<open>Statuses over sequences of requests\<close>

lemma signup_posts:
  "posts (snd (signup c b d)) = posts d \<and> post_seq (snd (signup c b d)) = post_seq d"
  by (simp add: signup_def insert_user_def Let_def split: option.splits)

lemma delete_post_snd: "snd (delete_post i d) = snd (delete_row i d)"
  unfolding delete_post_def by (simp add: case_prod_beta)

lemma delete_row_posts: "posts (snd (delete_row i d)) = filter (\<lambda>r. p_id r \<noteq> i) (posts d)"
  by (simp add: delete_row_def)

lemma create_post_posts:
  "posts (snd (create_post b ts d)) = posts d \<or>
   (\<exists>new. posts (snd (create_post b ts d)) = posts d @ [new] \<and>
          p_id new = post_seq d + 1 \<and> p_status new = pending \<and>
          post_seq (snd (create_post b ts d)) = post_seq d + 1)"
proof (cases "falsy (b ''title'') \<or> falsy (b ''content'') \<or> falsy (b ''author'') \<or>
           falsy (b ''username'') \<or> falsy (b ''category'')")
  case True
  then show ?thesis by (simp add: create_post_missing)
next
  case False
  show ?thesis unfolding create_post_ok [OF False] by simp
qed

lemma is_status_simps: "is_status pending" "is_status approved" "is_status rejected"
  by (simp_all add: is_status_def)

lemma set_status_all:
  assumes "list_all (\<lambda>r. is_status (p_status r)) rows" "is_status s"
  shows "list_all (\<lambda>r. is_status (p_status r))
           (map (\<lambda>r. if p_id r = i then r\<lparr>p_status := s\<rparr> else r) rows)"
  using assms by (induction rows) simp_all

lemma filter_status_all:
  "list_all (\<lambda>r. is_status (p_status r)) rows \<Longrightarrow>
   list_all (\<lambda>r. is_status (p_status r)) (filter P rows)"
  by (induction rows) simp_all

lemma handle_status_inv:
  assumes "list_all (\<lambda>r. is_status (p_status r)) (posts d)"
  shows "list_all (\<lambda>r. is_status (p_status r)) (posts (snd (handle c q d)))"
proof (cases q)
  case (Signup b)
  then show ?thesis using assms by (simp add: signup_posts)
next
  case (CreatePost b ts)
  then show ?thesis using assms create_post_posts [of b ts d]
    by (auto simp: is_status_simps)
next
  case (Approve i)
  have "is_status (SqlText (lit ''approved''))"
    using is_status_simps(2) by (simp add: approved_def)
  then show ?thesis using Approve assms
    by (simp add: approve_snd update_status_posts set_status_all)
next
  case (Reject i)
  have "is_status (SqlText (lit ''rejected''))"
    using is_status_simps(3) by (simp add: rejected_def)
  then show ?thesis using Reject assms
    by (simp add: reject_snd update_status_posts set_status_all)
next
  case (Delete i)
  then show ?thesis using assms
    by (simp add: delete_post_snd delete_row_posts filter_status_all)
qed (use assms in simp_all)

lemma serve_status_inv:
  "list_all (\<lambda>r. is_status (p_status r)) (posts d) \<Longrightarrow>
   list_all (\<lambda>r. is_status (p_status r)) (posts (serve c qs d))"
  by (induction qs arbitrary: d) (simp_all add: handle_status_inv)

lemma handle_row_step:
  assumes "r' \<in> set (posts (snd (handle c q d)))"
  shows "r' \<in> set (posts d) \<or>
         (\<exists>r\<in>set (posts d). q = Approve (p_id r) \<and> r' = r\<lparr>p_status := approved\<rparr>) \<or>
         (\<exists>r\<in>set (posts d). q = Reject (p_id r) \<and> r' = r\<lparr>p_status := rejected\<rparr>) \<or>
         ((\<exists>b ts. q = CreatePost b ts) \<and> p_id r' = post_seq d + 1 \<and> p_status r' = pending)"
proof (cases q)
  case (Signup b)
  then show ?thesis using assms by (simp add: signup_posts)
next
  case (CreatePost b ts)
  then show ?thesis using assms create_post_posts [of b ts d] by auto
next
  case (Approve i)
  then have "r' \<in> set (map (\<lambda>r. if p_id r = i then r\<lparr>p_status := approved\<rparr> else r) (posts d))"
    using assms by (simp add: approve_snd update_status_posts approved_def)
  then obtain r where "r \<in> set (posts d)"
      "r' = (if p_id r = i then r\<lparr>p_status := approved\<rparr> else r)" by auto
  then show ?thesis using Approve by (cases "p_id r = i") auto
next
  case (Reject i)
  then have "r' \<in> set (map (\<lambda>r. if p_id r = i then r\<lparr>p_status := rejected\<rparr> else r) (posts d))"
    using assms by (simp add: reject_snd update_status_posts rejected_def)
  then obtain r where "r \<in> set (posts d)"
      "r' = (if p_id r = i then r\<lparr>p_status := rejected\<rparr> else r)" by auto
  then show ?thesis using Reject by (cases "p_id r = i") auto
next
  case (Delete i)
  then show ?thesis using assms by (simp add: delete_post_snd delete_row_posts)
qed (use assms in simp_all)

lemma status_of_update:
  assumes "i \<in> set (map p_id (posts d))"
  shows "status_of i (snd (update_status s i d)) = Some (SqlText s)"
proof -
  obtain r where r: "find (\<lambda>r. p_id r = i) (posts d) = Some r"
    using find_Some_iff_id [OF assms] by blast
  show ?thesis
    by (simp add: status_of_def update_status_posts find_set_status r)
qed

lemma create_post_appends:
  assumes "fst (fst (create_post b ts d)) = 201"
  shows "\<exists>new. posts (snd (create_post b ts d)) = posts d @ [new] \<and> p_status new = pending"
proof (cases "falsy (b ''title'') \<or> falsy (b ''content'') \<or> falsy (b ''author'') \<or>
           falsy (b ''username'') \<or> falsy (b ''category'')")
  case True
  then show ?thesis using assms by (simp add: create_post_missing)
next
  case False
  show ?thesis unfolding create_post_ok [OF False] by simp
qed

lemma handle_row_kept:
  assumes "r \<in> set (posts d)"
  shows "r \<in> set (posts (snd (handle c q d))) \<or>
         (q = Approve (p_id r) \<and> r\<lparr>p_status := approved\<rparr> \<in> set (posts (snd (handle c q d)))) \<or>
         (q = Reject (p_id r) \<and> r\<lparr>p_status := rejected\<rparr> \<in> set (posts (snd (handle c q d)))) \<or>
         q = Delete (p_id r)"
proof (cases q)
  case (Signup b)
  then show ?thesis using assms by (simp add: signup_posts)
next
  case (CreatePost b ts)
  then show ?thesis using assms create_post_posts [of b ts d] by auto
next
  case (Approve i)
  have "(if p_id r = i then r\<lparr>p_status := approved\<rparr> else r)
          \<in> set (map (\<lambda>r. if p_id r = i then r\<lparr>p_status := approved\<rparr> else r) (posts d))"
    using assms by simp
  then have "(if p_id r = i then r\<lparr>p_status := approved\<rparr> else r) \<in> set (posts (snd (handle c q d)))"
    using Approve by (simp add: approve_snd update_status_posts approved_def)
  then show ?thesis using Approve by (cases "p_id r = i") simp_all
next
  case (Reject i)
  have "(if p_id r = i then r\<lparr>p_status := rejected\<rparr> else r)
          \<in> set (map (\<lambda>r. if p_id r = i then r\<lparr>p_status := rejected\<rparr> else r) (posts d))"
    using assms by simp
  then have "(if p_id r = i then r\<lparr>p_status := rejected\<rparr> else r) \<in> set (posts (snd (handle c q d)))"
    using Reject by (simp add: reject_snd update_status_posts rejected_def)
  then show ?thesis using Reject by (cases "p_id r = i") simp_all
next
  case (Delete i)
  then show ?thesis using assms by (simp add: delete_post_snd delete_row_posts)
qed (use assms in simp_all)

text \<open>
  C1, as stated, fails: after a submit and an approve, a reject moves the status of the
  post from approved to rejected, a transition that is neither from pending nor an
  overwrite of a status by itself.
\<close>

theorem status_approved_to_rejected:
  "status_of 1 (serve sample_collab [CreatePost sample_post 7, Approve 1] empty_db)
     = Some approved \<and>
   status_of 1 (snd (handle sample_collab (Reject 1)
                  (serve sample_collab [CreatePost sample_post 7, Approve 1] empty_db)))
     = Some rejected \<and>
   \<not> spec_transition_allowed approved rejected"
  by (simp add: status_of_def create_post_def sample_post_def no_fields_def insert_post_def
      empty_db_def approve_def reject_def update_status_def or_null_def approved_def
      rejected_def pending_def spec_transition_allowed_def lit_def)

text \<open>
  C1, amended. In every store reached from the empty one, the status of every post is one
  of pending, approved and rejected. One request changes the posts only so: a submit that
  succeeds appends one post, with status pending; approve and reject keep every post in
  its place and, when a post has the given id, leave it with status approved, respectively
  rejected, whatever its status was before (so approved to rejected and rejected to
  approved occur as well); every row of the result is a row of the store before, such a
  row with the new status, or the new pending row; and every row of the store before is
  still there unchanged, is there with the status that an approve or reject of its id
  gave it, or was removed by a delete of its id.
\<close>

theorem status_values_and_transitions:
  "list_all (\<lambda>r. is_status (p_status r)) (posts (serve c qs empty_db)) \<and>
   (\<forall>r'\<in>set (posts (snd (handle c q d))).
      r' \<in> set (posts d) \<or>
      (\<exists>r\<in>set (posts d). q = Approve (p_id r) \<and> r' = r\<lparr>p_status := approved\<rparr>) \<or>
      (\<exists>r\<in>set (posts d). q = Reject (p_id r) \<and> r' = r\<lparr>p_status := rejected\<rparr>) \<or>
      ((\<exists>b ts. q = CreatePost b ts) \<and> p_id r' = post_seq d + 1 \<and> p_status r' = pending)) \<and>
   list_all (\<lambda>r. p_id r = i \<longrightarrow> p_status r = approved) (posts (snd (approve i d))) \<and>
   list_all (\<lambda>r. p_id r = i \<longrightarrow> p_status r = rejected) (posts (snd (reject i d))) \<and>
   (i \<in> set (map p_id (posts d)) \<longrightarrow>
      status_of i (snd (approve i d)) = Some approved \<and>
      status_of i (snd (reject i d)) = Some rejected) \<and>
   map p_id (posts (snd (approve i d))) = map p_id (posts d) \<and>
   map p_id (posts (snd (reject i d))) = map p_id (posts d) \<and>
   (\<forall>r\<in>set (posts d).
      r \<in> set (posts (snd (handle c q d))) \<or>
      (q = Approve (p_id r) \<and> r\<lparr>p_status := approved\<rparr> \<in> set (posts (snd (handle c q d)))) \<or>
      (q = Reject (p_id r) \<and> r\<lparr>p_status := rejected\<rparr> \<in> set (posts (snd (handle c q d)))) \<or>
      q = Delete (p_id r)) \<and>
   (fst (fst (create_post b ts d)) = 201 \<longrightarrow>
      (\<exists>new. posts (snd (create_post b ts d)) = posts d @ [new] \<and> p_status new = pending))"
proof -
  have 1: "list_all (\<lambda>r. is_status (p_status r)) (posts (serve c qs empty_db))"
    by (rule serve_status_inv) (simp add: empty_db_def)
  have 2: "\<forall>r'\<in>set (posts (snd (handle c q d))).
      r' \<in> set (posts d) \<or>
      (\<exists>r\<in>set (posts d). q = Approve (p_id r) \<and> r' = r\<lparr>p_status := approved\<rparr>) \<or>
      (\<exists>r\<in>set (posts d). q = Reject (p_id r) \<and> r' = r\<lparr>p_status := rejected\<rparr>) \<or>
      ((\<exists>b ts. q = CreatePost b ts) \<and> p_id r' = post_seq d + 1 \<and> p_status r' = pending)"
    by (intro ballI handle_row_step)
  have 3: "list_all (\<lambda>r. p_id r = i \<longrightarrow> p_status r = approved) (posts (snd (approve i d)))"
    by (simp only: approve_snd update_status_posts approved_def all_set_status)
  have 4: "list_all (\<lambda>r. p_id r = i \<longrightarrow> p_status r = rejected) (posts (snd (reject i d)))"
    by (simp only: reject_snd update_status_posts rejected_def all_set_status)
  have 5: "i \<in> set (map p_id (posts d)) \<longrightarrow>
      status_of i (snd (approve i d)) = Some approved \<and>
      status_of i (snd (reject i d)) = Some rejected"
    using status_of_update [of i d "lit ''approved''"] status_of_update [of i d "lit ''rejected''"]
    by (simp add: approve_snd reject_snd approved_def rejected_def)
  have 6: "map p_id (posts (snd (approve i d))) = map p_id (posts d)"
    by (simp only: approve_snd update_status_ids)
  have 7: "map p_id (posts (snd (reject i d))) = map p_id (posts d)"
    by (simp only: reject_snd update_status_ids)
  have 8: "\<forall>r\<in>set (posts d).
      r \<in> set (posts (snd (handle c q d))) \<or>
      (q = Approve (p_id r) \<and> r\<lparr>p_status := approved\<rparr> \<in> set (posts (snd (handle c q d)))) \<or>
      (q = Reject (p_id r) \<and> r\<lparr>p_status := rejected\<rparr> \<in> set (posts (snd (handle c q d)))) \<or>
      q = Delete (p_id r)"
    by (intro ballI handle_row_kept)
  have 9: "fst (fst (create_post b ts d)) = 201 \<longrightarrow>
      (\<exists>new. posts (snd (create_post b ts d)) = posts d @ [new] \<and> p_status new = pending)"
    by (intro impI create_post_appends)
  show ?thesis by (intro conjI 1 2 3 4 5 6 7 8 9)
qed

theorem status_values_and_transitions_witness:
  "posts (serve sample_collab [CreatePost sample_post 7, Approve 1] empty_db) \<noteq> [] \<and>
   1 \<in> set (map p_id (posts (serve sample_collab [CreatePost sample_post 7, Approve 1] empty_db))) \<and>
   list_all (\<lambda>r. is_status (p_status r))
     (posts (serve sample_collab [CreatePost sample_post 7, Approve 1] empty_db)) \<and>
   list_all (\<lambda>r. p_id r = 1 \<longrightarrow> p_status r = rejected)
     (posts (snd (reject 1 (serve sample_collab [CreatePost sample_post 7, Approve 1] empty_db)))) \<and>
   status_of 1 (snd (reject 1 (serve sample_collab [CreatePost sample_post 7, Approve 1] empty_db)))
     = Some rejected"
proof -
  have ne: "posts (serve sample_collab [CreatePost sample_post 7, Approve 1] empty_db) \<noteq> []"
    by (simp add: create_post_def sample_post_def no_fields_def insert_post_def empty_db_def
        approve_def update_status_def)
  have m: "1 \<in> set (map p_id (posts (serve sample_collab [CreatePost sample_post 7, Approve 1] empty_db)))"
    by (simp add: create_post_def sample_post_def no_fields_def insert_post_def empty_db_def
        approve_def update_status_def)
  show ?thesis
    using ne m status_values_and_transitions [of sample_collab "[CreatePost sample_post 7, Approve 1]"
        "Reject 1" "serve sample_collab [CreatePost sample_post 7, Approve 1] empty_db" 1
        sample_post 7]
    by blast
qed

text \<open>
  Every request keeps the ids unique and below the sequence, so every store reached from
  the empty one is well formed.
\<close>

lemma signup_users:
  "snd (signup c b d) = d \<or>
   (\<exists>u. snd (signup c b d) = d\<lparr>users := users d @ [u], user_seq := user_seq d + 1\<rparr> \<and>
        u_id u = user_seq d + 1)"
  by (auto simp: signup_def insert_user_def Let_def split: option.splits)

lemma distinct_append_fresh:
  assumes "distinct (map f rows)" "list_all (\<lambda>r. f r \<le> (n::nat)) rows" "f new = n + 1"
  shows "distinct (map f (rows @ [new])) \<and> list_all (\<lambda>r. f r \<le> n + 1) (rows @ [new])"
  using assms by (auto simp: list_all_iff)

lemma set_status_ids_le:
  "list_all (\<lambda>r. p_id r \<le> n) rows \<Longrightarrow>
   list_all (\<lambda>r. p_id r \<le> n) (map (\<lambda>r. if p_id r = i then r\<lparr>p_status := s\<rparr> else r) rows)"
  by (induction rows) simp_all

lemma wf_db_update_status:
  assumes "wf_db d"
  shows "wf_db (snd (update_status s i d))"
proof -
  let ?d = "snd (update_status s i d)"
  have ids: "map p_id (posts ?d) = map p_id (posts d)" by (rule update_status_ids)
  have le: "list_all (\<lambda>r. p_id r \<le> post_seq d) (posts ?d)"
    unfolding update_status_posts using assms by (intro set_status_ids_le) (simp add: wf_db_def)
  have rest: "users ?d = users d" "user_seq ?d = user_seq d" "post_seq ?d = post_seq d"
    by (simp_all add: update_status_def)
  show ?thesis unfolding wf_db_def ids rest using assms le by (simp add: wf_db_def)
qed

lemma wf_db_handle:
  assumes "wf_db d"
  shows "wf_db (snd (handle c q d))"
proof (cases q)
  case (Signup b)
  from signup_users [of c b d] show ?thesis
  proof
    assume "snd (signup c b d) = d"
    then show ?thesis using Signup assms by simp
  next
    assume "\<exists>u. snd (signup c b d) = d\<lparr>users := users d @ [u], user_seq := user_seq d + 1\<rparr> \<and>
        u_id u = user_seq d + 1"
    then obtain u where u: "snd (signup c b d) = d\<lparr>users := users d @ [u], user_seq := user_seq d + 1\<rparr>"
      "u_id u = user_seq d + 1" by blast
    have "distinct (map u_id (users d @ [u])) \<and>
          list_all (\<lambda>r. u_id r \<le> user_seq d + 1) (users d @ [u])"
      using assms u(2) by (intro distinct_append_fresh) (simp_all add: wf_db_def)
    then show ?thesis using Signup assms u(1) by (simp add: wf_db_def)
  qed
next
  case (CreatePost b ts)
  from create_post_posts [of b ts d] show ?thesis
  proof
    assume "posts (snd (create_post b ts d)) = posts d"
    moreover have "snd (create_post b ts d) = d \<or> post_seq (snd (create_post b ts d)) = post_seq d + 1"
      using create_post_posts [of b ts d] create_post_missing [of b ts d] create_post_ok [of b ts d]
      by (cases "falsy (b ''title'') \<or> falsy (b ''content'') \<or> falsy (b ''author'') \<or>
           falsy (b ''username'') \<or> falsy (b ''category'')") simp_all
    ultimately have "snd (create_post b ts d) = d"
      using create_post_missing [of b ts d] create_post_ok [of b ts d]
      by (cases "falsy (b ''title'') \<or> falsy (b ''content'') \<or> falsy (b ''author'') \<or>
           falsy (b ''username'') \<or> falsy (b ''category'')") simp_all
    then show ?thesis using CreatePost assms by simp
  next
    assume "\<exists>new. posts (snd (create_post b ts d)) = posts d @ [new] \<and>
          p_id new = post_seq d + 1 \<and> p_status new = pending \<and>
          post_seq (snd (create_post b ts d)) = post_seq d + 1"
    then obtain new where n: "posts (snd (create_post b ts d)) = posts d @ [new]"
      "p_id new = post_seq d + 1" "post_seq (snd (create_post b ts d)) = post_seq d + 1"
      by blast
    have f: "\<not> (falsy (b ''title'') \<or> falsy (b ''content'') \<or> falsy (b ''author'') \<or>
           falsy (b ''username'') \<or> falsy (b ''category''))"
      using n(3) create_post_missing [of b ts d] by auto
    have us: "users (snd (create_post b ts d)) = users d"
             "user_seq (snd (create_post b ts d)) = user_seq d"
      unfolding create_post_ok [OF f] by simp_all
    have "distinct (map p_id (posts d @ [new])) \<and>
          list_all (\<lambda>r. p_id r \<le> post_seq d + 1) (posts d @ [new])"
      using assms n(2) by (intro distinct_append_fresh) (simp_all add: wf_db_def)
    then show ?thesis using CreatePost assms n us by (simp add: wf_db_def)
  qed
next
  case (Approve i)
  then show ?thesis using assms by (simp add: approve_snd wf_db_update_status)
next
  case (Reject i)
  then show ?thesis using assms by (simp add: reject_snd wf_db_update_status)
next
  case (Delete i)
  then show ?thesis using assms
    by (simp add: wf_db_def delete_post_snd delete_row_def distinct_map_filter list_all_iff)
qed (use assms in simp_all)

lemma wf_db_serve: "wf_db d \<Longrightarrow> wf_db (serve c qs d)"
  by (induction qs arbitrary: d) (simp_all add: wf_db_handle)

lemma wf_db_reachable: "wf_db (serve c qs empty_db)"
  by (rule wf_db_serve) (simp add: wf_db_def empty_db_def)

end
